theory Spec2Isabelle
  imports Main
begin

section \<open>Values, exceptions and the outside world\<close>

text \<open>
  The controller of \<^verbatim>\<open>tuya_roon_robust.py\<close> is a Python object whose methods talk to
  two services: the Roon API (volume, playback, zone enumeration) and an MQTT client.
  Python values that cross these borders are dynamically typed, so results of commands,
  decoded MQTT payloads and telemetry fields are values of one datatype.
\<close>

datatype pyval =
    PNone
  | PBool bool
  | PInt int
  | PStr string
  | PList "pyval list"
  | PDict "(string \<times> pyval) list"

text \<open>Python truthiness, as used by \<^verbatim>\<open>if x:\<close> and \<^verbatim>\<open>not x\<close>.\<close>

fun truthy :: "pyval \<Rightarrow> bool" where
  "truthy PNone = False"
| "truthy (PBool b) = b"
| "truthy (PInt i) = (i \<noteq> 0)"
| "truthy (PStr s) = (s \<noteq> [])"
| "truthy (PList xs) = (xs \<noteq> [])"
| "truthy (PDict kvs) = (kvs \<noteq> [])"

datatype exn = ServiceError | TypeError | KeyError | ValueError

text \<open>
  An entry of \<^verbatim>\<open>roonapi.zones\<close>: the \<^verbatim>\<open>state\<close> key (it may be missing) and
  the \<^verbatim>\<open>output_id\<close> of every entry of \<^verbatim>\<open>outputs\<close>.
\<close>

record zone_info =
  zstate :: "string option"
  zoutputs :: "string list"

text \<open>
  What a call to a service answers. \<^verbatim>\<open>roonapi.outputs\<close> is a dict from output id to
  a dict that may hold \<^verbatim>\<open>display_name\<close>; it is kept as an association list, in
  the dict's enumeration order.
\<close>

datatype resp =
    Raises
  | Returns pyval
  | ReturnsOutputs "(string \<times> string option) list"
  | ReturnsZones "(string \<times> zone_info) list"

text \<open>The calls the controller issues, and its sleeps, in the order they happen.\<close>

datatype event =
    RoonApiInit
  | ReadZones
  | ReadOutputs
  | WriteToken
  | GetVolumePercent pyval
  | SetVolumePercent pyval int
  | PlaybackControl string string
  | Sleep nat
  | MqttReconnect

text \<open>
  The fields of \<^verbatim>\<open>RobustTuyaRoonController\<close> that the modelled methods read or write,
  followed by the world: the clock read by \<^verbatim>\<open>time.time()\<close>, the trace of calls issued
  so far, and the answers the services will give to the coming calls, in order (a call
  made when no answer is left raises). \<^verbatim>\<open>roonapi\<close> is \<open>True\<close> when the field holds a
  \<^verbatim>\<open>RoonApi\<close> object and \<open>False\<close> when it is \<^verbatim>\<open>None\<close>. \<^verbatim>\<open>print\<close> is modelled
  only in the message handler, where a log line that raises decides what is assigned.
\<close>

record controller =
  roonapi :: bool
  zone_output_id :: pyval
  volume_step :: int
  mqtt_connected :: bool
  roon_connection_healthy :: bool
  last_successful_command :: nat
  knob_battery :: pyval
  knob_last_seen :: "nat option"
  knob_voltage :: pyval
  knob_linkquality :: pyval
  now :: nat
  trace :: "event list"
  responses :: "resp list"

definition call :: "event \<Rightarrow> controller \<Rightarrow> resp \<times> controller" where
  "call e s =
     (case responses s of
        [] \<Rightarrow> (Raises, s\<lparr>trace := trace s @ [e]\<rparr>)
      | r # rs \<Rightarrow> (r, s\<lparr>trace := trace s @ [e], responses := rs\<rparr>))"

definition sleep :: "nat \<Rightarrow> controller \<Rightarrow> controller" where
  "sleep n s = s\<lparr>now := now s + n, trace := trace s @ [Sleep n]\<rparr>"

section \<open>ControlSession: \<^verbatim>\<open>setup_roon\<close> and \<^verbatim>\<open>robust_roon_command\<close>\<close>

text \<open>
  The polling loop of \<^verbatim>\<open>setup_roon\<close> (lines 186-239): every 5 seconds, up to 300
  seconds, read \<^verbatim>\<open>zones\<close> and \<^verbatim>\<open>outputs\<close>; when both are not \<^verbatim>\<open>None\<close> write the token
  file and succeed. Any exception inside one round is caught by the inner handler, which
  sleeps and polls again. After the loop the session is marked unhealthy.
\<close>

function wait_authorization :: "nat \<Rightarrow> controller \<Rightarrow> bool \<times> controller" where
  "wait_authorization waited_time s =
     (if waited_time < 300 then
        (case call ReadZones s of
           (Raises, s1) \<Rightarrow> wait_authorization (waited_time + 5) (sleep 5 s1)
         | (zones, s1) \<Rightarrow>
             (case call ReadOutputs s1 of
                (Raises, s2) \<Rightarrow> wait_authorization (waited_time + 5) (sleep 5 s2)
              | (outputs, s2) \<Rightarrow>
                  if zones \<noteq> Returns PNone \<and> outputs \<noteq> Returns PNone then
                    (case call WriteToken s2 of
                       (Raises, s3) \<Rightarrow> wait_authorization (waited_time + 5) (sleep 5 s3)
                     | (_, s3) \<Rightarrow> (True, s3\<lparr>roon_connection_healthy := True\<rparr>))
                  else wait_authorization (waited_time + 5) (sleep 5 s2)))
      else (False, s\<lparr>roon_connection_healthy := False\<rparr>))"
  by pat_completeness auto
termination
  by (relation "measure (\<lambda>(waited_time, s). 300 - waited_time)") auto

declare wait_authorization.simps [simp del]

text \<open>
  \<^verbatim>\<open>setup_roon\<close> (lines 145-253). Reading the ini file and the token file and
  constructing \<^verbatim>\<open>RoonApi\<close> are one call, \<open>RoonApiInit\<close>; an exception there is caught
  by the outer handler (line 250), before \<^verbatim>\<open>self.roonapi\<close> is assigned.
\<close>

definition setup_roon :: "controller \<Rightarrow> bool \<times> controller" where
  "setup_roon s =
     (case call RoonApiInit s of
        (Raises, s1) \<Rightarrow> (False, s1\<lparr>roon_connection_healthy := False\<rparr>)
      | (_, s1) \<Rightarrow> wait_authorization 0 (s1\<lparr>roonapi := True\<rparr>))"

type_synonym command = "controller \<Rightarrow> (exn + pyval) \<times> controller"

text \<open>
  The guard at the head of every attempt (lines 115-117): with no \<^verbatim>\<open>RoonApi\<close> object
  the wrapper reconnects first. The boolean says whether the attempt goes on to run the
  command.
\<close>

definition ensure_roonapi :: "controller \<Rightarrow> bool \<times> controller" where
  "ensure_roonapi s = (if \<not> roonapi s then setup_roon s else (True, s))"

text \<open>
  The body of \<^verbatim>\<open>for attempt in range(max_retries)\<close> (lines 113-143), by recursion on the
  attempts still to run. \<^verbatim>\<open>attempt < max_retries - 1\<close> is written
  \<open>attempt + 1 < max_retries\<close>. Falling out of the loop returns \<^verbatim>\<open>False\<close>.
\<close>

fun attempts :: "command \<Rightarrow> nat \<Rightarrow> nat list \<Rightarrow> controller \<Rightarrow> pyval \<times> controller" where
  "attempts command_func max_retries [] s = (PBool False, s)"
| "attempts command_func max_retries (attempt # rest) s =
     (let (ok, s1) = ensure_roonapi s in
      if \<not> ok then
        (if attempt + 1 < max_retries then attempts command_func max_retries rest (sleep 3 s1)
         else (PBool False, s1\<lparr>roon_connection_healthy := False\<rparr>))
      else
        (case command_func s1 of
           (Inr result, s2) \<Rightarrow>
             (result, s2\<lparr>last_successful_command := now s2, roon_connection_healthy := True\<rparr>)
         | (Inl e, s2) \<Rightarrow>
             if attempt + 1 < max_retries then
               attempts command_func max_retries rest (snd (setup_roon (sleep 2 s2)))
             else
               attempts command_func max_retries rest (s2\<lparr>roon_connection_healthy := False\<rparr>)))"

definition robust_roon_command :: "command \<Rightarrow> nat \<Rightarrow> controller \<Rightarrow> pyval \<times> controller" where
  "robust_roon_command command_func max_retries s =
     attempts command_func max_retries [0..<max_retries] s"

section \<open>ActionDispatcher: volume and playback\<close>

text \<open>
  \<^verbatim>\<open>_get_volume\<close> (lines 323-332); an exception of the service is caught and gives
  \<^verbatim>\<open>None\<close>. The service answers a value (a percentage, or \<^verbatim>\<open>None\<close>); an
  answer shaped like an enumeration is read as an exception.
\<close>

definition inner_get_volume :: command where
  "inner_get_volume s =
     (if \<not> truthy (zone_output_id s) \<or> \<not> roonapi s then (Inr PNone, s)
      else
        (case call (GetVolumePercent (zone_output_id s)) s of
           (Returns volume, s1) \<Rightarrow> (Inr volume, s1)
         | (_, s1) \<Rightarrow> (Inr PNone, s1)))"

definition get_current_volume :: "controller \<Rightarrow> pyval \<times> controller" where
  "get_current_volume s = robust_roon_command inner_get_volume 3 s"

text \<open>\<^verbatim>\<open>_set_volume\<close> (lines 338-350).\<close>

definition inner_set_volume :: "int \<Rightarrow> command" where
  "inner_set_volume volume_percent s =
     (if \<not> truthy (zone_output_id s) \<or> \<not> roonapi s then (Inr (PBool False), s)
      else
        (let volume_percent_clamped = max 0 (min 100 volume_percent) in
         case call (SetVolumePercent (zone_output_id s) volume_percent_clamped) s of
           (Raises, s1) \<Rightarrow> (Inr (PBool False), s1)
         | (_, s1) \<Rightarrow> (Inr (PBool True), s1)))"

definition set_volume :: "int \<Rightarrow> controller \<Rightarrow> pyval \<times> controller" where
  "set_volume volume_percent s = robust_roon_command (inner_set_volume volume_percent) 3 s"

text \<open>
  \<^verbatim>\<open>current + delta\<close>: Python adds an integer to an integer or a boolean
  (\<^verbatim>\<open>False + 5 = 5\<close>) and raises \<^verbatim>\<open>TypeError\<close> on the other values.
\<close>

fun py_add :: "pyval \<Rightarrow> int \<Rightarrow> exn + int" where
  "py_add (PInt c) delta = Inr (c + delta)"
| "py_add (PBool b) delta = Inr ((if b then 1 else 0) + delta)"
| "py_add v delta = Inl TypeError"

text \<open>\<^verbatim>\<open>change_volume\<close> (lines 354-362).\<close>

definition change_volume :: "int \<Rightarrow> controller \<Rightarrow> (exn + bool) \<times> controller" where
  "change_volume delta s =
     (let (current, s1) = get_current_volume s in
      if current \<noteq> PNone then
        (case py_add current delta of
           Inl e \<Rightarrow> (Inl e, s1)
         | Inr summed \<Rightarrow>
             (let new_volume = max 0 (min 100 summed);
                  (ok, s2) = set_volume new_volume s1
              in if truthy ok then (Inr True, s2) else (Inr False, s2)))
      else (Inr False, s1))"

text \<open>
  The guarded part of \<^verbatim>\<open>_toggle_playback\<close> (lines 388-411): the verb chosen from
  the play state, and \<^verbatim>\<open>playpause\<close> as the fallback when that call raises.
\<close>

definition control_playback :: "string \<Rightarrow> string \<Rightarrow> command" where
  "control_playback current_zone_id verb s =
     (case call (PlaybackControl current_zone_id verb) s of
        (Raises, s1) \<Rightarrow>
          (case call (PlaybackControl current_zone_id ''playpause'') s1 of
             (Raises, s2) \<Rightarrow> (Inr (PBool False), s2)
           | (_, s2) \<Rightarrow> (Inr (PBool True), s2))
      | (_, s1) \<Rightarrow> (Inr (PBool True), s1))"

text \<open>
  \<^verbatim>\<open>_toggle_playback\<close> (lines 366-414). The scan takes the first zone one of whose
  outputs is the bound output. Reading \<^verbatim>\<open>roonapi.zones\<close> is outside any handler, so
  an exception there goes to the wrapper.
\<close>

definition inner_toggle_playback :: command where
  "inner_toggle_playback s =
     (if \<not> truthy (zone_output_id s) \<or> \<not> roonapi s then (Inr (PBool False), s)
      else
        (case call ReadZones s of
           (ReturnsZones zones, s1) \<Rightarrow>
             (case find (\<lambda>(zone_id, zone_info).
                          \<exists>output_id \<in> set (zoutputs zone_info). PStr output_id = zone_output_id s1)
                     zones of
                Some (current_zone_id, current_zone) \<Rightarrow>
                  if current_zone_id \<noteq> [] then
                    (let state = (case zstate current_zone of None \<Rightarrow> ''stopped'' | Some st \<Rightarrow> st)
                     in control_playback current_zone_id
                          (if state = ''playing'' then ''pause'' else ''play'') s1)
                  else (Inr (PBool False), s1)
              | None \<Rightarrow> (Inr (PBool False), s1))
         | (_, s1) \<Rightarrow> (Inl ServiceError, s1)))"

definition toggle_playback :: "controller \<Rightarrow> controller" where
  "toggle_playback s = snd (robust_roon_command inner_toggle_playback 3 s)"

text \<open>
  \<^verbatim>\<open>handle_knob_action\<close> (lines 507-528). The action is whatever the payload held
  under \<^verbatim>\<open>action\<close>; an exception of \<^verbatim>\<open>change_volume\<close> leaves the method.
\<close>

definition handle_knob_action :: "pyval \<Rightarrow> controller \<Rightarrow> (exn + unit) \<times> controller" where
  "handle_knob_action action s =
     (if \<not> truthy (zone_output_id s) then (Inr (), s)
      else if action = PStr ''rotate_left'' then
        (case change_volume (- volume_step s) s of
           (Inl e, s1) \<Rightarrow> (Inl e, s1)
         | (Inr _, s1) \<Rightarrow> (Inr (), s1))
      else if action = PStr ''rotate_right'' then
        (case change_volume (volume_step s) s of
           (Inl e, s1) \<Rightarrow> (Inl e, s1)
         | (Inr _, s1) \<Rightarrow> (Inr (), s1))
      else if action = PStr ''single'' then (Inr (), toggle_playback s)
      else if action = PStr ''double'' then (Inr (), snd (set_volume 50 s))
      else if action = PStr ''hold'' then (Inr (), snd (set_volume 0 s))
      else (Inr (), s))"

section \<open>ZoneResolver: \<^verbatim>\<open>find_zone_output_id\<close>\<close>

text \<open>Python's \<^verbatim>\<open>a in b\<close> on two strings: \<open>a\<close> occurs in \<open>b\<close> as a contiguous run.\<close>

fun is_prefix :: "string \<Rightarrow> string \<Rightarrow> bool" where
  "is_prefix [] ys = True"
| "is_prefix (x # xs) [] = False"
| "is_prefix (x # xs) (y # ys) = (x = y \<and> is_prefix xs ys)"

fun str_in :: "string \<Rightarrow> string \<Rightarrow> bool" where
  "str_in xs [] = (xs = [])"
| "str_in xs (y # ys) = (is_prefix xs (y # ys) \<or> str_in xs ys)"

text \<open>\<^verbatim>\<open>output_info.get('display_name', '')\<close> (line 271).\<close>

definition display_name_of :: "string option \<Rightarrow> string" where
  "display_name_of output_info = (case output_info of None \<Rightarrow> [] | Some d \<Rightarrow> d)"

text \<open>The test of line 272.\<close>

definition name_matches :: "string \<Rightarrow> string option \<Rightarrow> bool" where
  "name_matches zone_name output_info =
     (let display_name = display_name_of output_info
      in zone_name = display_name \<or> str_in zone_name display_name)"

text \<open>The loop of lines 270-274: the first output, in enumeration order, that matches.\<close>

fun first_by_name :: "string \<Rightarrow> (string \<times> string option) list \<Rightarrow> pyval" where
  "first_by_name zone_name [] = PNone"
| "first_by_name zone_name ((output_id, output_info) # rest) =
     (if name_matches zone_name output_info then PStr output_id
      else first_by_name zone_name rest)"

text \<open>
  Lines 263-281 of \<^verbatim>\<open>_find_zone\<close>, on the enumerated outputs. An argument is
  \<open>None\<close> or a string; \<^verbatim>\<open>if zone_id\<close> also fails on the empty string.
\<close>

definition find_zone :: "string option \<Rightarrow> string option \<Rightarrow> (string \<times> string option) list \<Rightarrow> pyval" where
  "find_zone zone_id zone_name outputs =
     (case zone_id of
        Some z \<Rightarrow>
          if z \<noteq> [] \<and> z \<in> set (map fst outputs) then PStr z
          else (case zone_name of
                  Some n \<Rightarrow> if n \<noteq> [] then first_by_name n outputs else PNone
                | None \<Rightarrow> PNone)
      | None \<Rightarrow>
          (case zone_name of
             Some n \<Rightarrow> if n \<noteq> [] then first_by_name n outputs else PNone
           | None \<Rightarrow> PNone))"

text \<open>
  \<^verbatim>\<open>_find_zone\<close> (lines 257-281): \<^verbatim>\<open>roonapi.outputs\<close> is read outside any handler, and
  an answer that is no dict makes the lookups raise.
\<close>

definition inner_find_zone :: "string option \<Rightarrow> string option \<Rightarrow> command" where
  "inner_find_zone zone_id zone_name s =
     (if \<not> roonapi s then (Inr PNone, s)
      else
        (case call ReadOutputs s of
           (ReturnsOutputs outputs, s1) \<Rightarrow> (Inr (find_zone zone_id zone_name outputs), s1)
         | (_, s1) \<Rightarrow> (Inl ServiceError, s1)))"

text \<open>The loop of lines 284-299, by recursion on the attempts still to run.\<close>

fun find_attempts ::
  "string option \<Rightarrow> string option \<Rightarrow> nat \<Rightarrow> nat \<Rightarrow> nat list \<Rightarrow> controller \<Rightarrow> pyval \<times> controller" where
  "find_attempts zone_id zone_name retries wait_time [] s = (PNone, s)"
| "find_attempts zone_id zone_name retries wait_time (attempt # rest) s =
     (let (result, s1) = robust_roon_command (inner_find_zone zone_id zone_name) 3 s in
      if truthy result then (result, s1)
      else if attempt + 1 < retries then
        find_attempts zone_id zone_name retries wait_time rest (sleep wait_time s1)
      else (PNone, s1))"

definition find_zone_output_id ::
  "string option \<Rightarrow> string option \<Rightarrow> nat \<Rightarrow> nat \<Rightarrow> controller \<Rightarrow> pyval \<times> controller" where
  "find_zone_output_id zone_id zone_name retries wait_time s =
     find_attempts zone_id zone_name retries wait_time [0..<retries] s"

section \<open>TransportSession: the MQTT callbacks\<close>

text \<open>
  \<^verbatim>\<open>on_mqtt_disconnect\<close> (lines 459-471); an exception of \<^verbatim>\<open>client.reconnect()\<close>
  is caught and only logged.
\<close>

definition on_mqtt_disconnect :: "int \<Rightarrow> controller \<Rightarrow> controller" where
  "on_mqtt_disconnect reason_code s =
     (let s1 = s\<lparr>mqtt_connected := False\<rparr> in
      if reason_code \<noteq> 0 then snd (call MqttReconnect (sleep 2 s1)) else s1)"

text \<open>\<^verbatim>\<open>key in payload\<close> and \<^verbatim>\<open>payload[key]\<close> for a string key, on any decoded value.\<close>

fun py_contains :: "string \<Rightarrow> pyval \<Rightarrow> exn + bool" where
  "py_contains key (PDict kvs) = Inr (key \<in> set (map fst kvs))"
| "py_contains key (PStr s) = Inr (str_in key s)"
| "py_contains key (PList xs) = Inr (PStr key \<in> set xs)"
| "py_contains key v = Inl TypeError"

fun py_getitem :: "pyval \<Rightarrow> string \<Rightarrow> exn + pyval" where
  "py_getitem (PDict kvs) key = (case map_of kvs key of None \<Rightarrow> Inl KeyError | Some v \<Rightarrow> Inr v)"
| "py_getitem v key = Inl TypeError"

text \<open>\<^verbatim>\<open>if key in payload: ... payload[key]\<close>: the value, if the key is there.\<close>

definition read_field :: "string \<Rightarrow> pyval \<Rightarrow> exn + pyval option" where
  "read_field key payload =
     (case py_contains key payload of
        Inl e \<Rightarrow> Inl e
      | Inr present \<Rightarrow>
          if present then
            (case py_getitem payload key of Inl e \<Rightarrow> Inl e | Inr v \<Rightarrow> Inr (Some v))
          else Inr None)"

text \<open>
  The handler logs with \<^verbatim>\<open>print\<close>, and a \<^verbatim>\<open>print\<close> that interpolates a value of
  the payload raises when the text cannot be encoded for the output stream (a string
  holding a lone surrogate raises \<^verbatim>\<open>UnicodeEncodeError\<close>). Whether a log line prints
  is the parameter \<open>prints\<close>, from the line's label and the interpolated value.

  \<^verbatim>\<open>if key in payload: self.field = payload[key]; print(...)\<close> (lines 490-498): the
  boolean says whether the handler goes on; the assignment is made before the print.
\<close>

definition store_field ::
  "(string \<Rightarrow> pyval \<Rightarrow> bool) \<Rightarrow> string \<Rightarrow> string \<Rightarrow> (pyval \<Rightarrow> controller \<Rightarrow> controller) \<Rightarrow>
   pyval \<Rightarrow> controller \<Rightarrow> bool \<times> controller" where
  "store_field prints key label assign payload s =
     (case read_field key payload of
        Inl e \<Rightarrow> (False, s)
      | Inr None \<Rightarrow> (True, s)
      | Inr (Some v) \<Rightarrow> (prints label v, assign v s))"

text \<open>
  \<^verbatim>\<open>on_mqtt_message\<close> (lines 482-505). \<^verbatim>\<open>json.loads(msg.payload.decode())\<close> is the
  library's; it is the parameter \<open>json_loads\<close>, from the payload's bytes to the decoded
  value or an exception. The handler's \<^verbatim>\<open>try\<close> spans the whole body: an exception
  stops it where it is and keeps the assignments made before. The payload is printed
  (line 486) before \<^verbatim>\<open>knob_last_seen\<close> is assigned (line 489). The dispatcher starts by
  printing the action (line 509); when that raises it does nothing else.
\<close>

definition on_mqtt_message ::
  "(string \<Rightarrow> exn + pyval) \<Rightarrow> (string \<Rightarrow> pyval \<Rightarrow> bool) \<Rightarrow> string \<Rightarrow> controller \<Rightarrow> controller" where
  "on_mqtt_message json_loads prints msg_payload s =
     (case json_loads msg_payload of
        Inl e \<Rightarrow> s
      | Inr payload \<Rightarrow>
          if \<not> prints ''MQTT message'' payload then s
          else
            (let s1 = s\<lparr>knob_last_seen := Some (now s)\<rparr>;
                 (go2, s2) = store_field prints ''battery'' ''Battery''
                               (\<lambda>v c. c\<lparr>knob_battery := v\<rparr>) payload s1
             in if \<not> go2 then s2
                else
                  (let (go3, s3) = store_field prints ''voltage'' ''Voltage''
                                     (\<lambda>v c. c\<lparr>knob_voltage := v\<rparr>) payload s2
                   in if \<not> go3 then s3
                      else
                        (let (go4, s4) = store_field prints ''linkquality'' ''Signal''
                                           (\<lambda>v c. c\<lparr>knob_linkquality := v\<rparr>) payload s3
                         in if \<not> go4 then s4
                            else
                              (case read_field ''action'' payload of
                                 Inl e \<Rightarrow> s4
                               | Inr None \<Rightarrow> s4
                               | Inr (Some action) \<Rightarrow>
                                   if prints ''Knob action'' action
                                   then snd (handle_knob_action action s4)
                                   else s4)))))"

section \<open>SettingsStore: \<^verbatim>\<open>save_config_dict\<close>\<close>

text \<open>
  What can happen to \<^verbatim>\<open>open(filename, 'w')\<close> followed by \<^verbatim>\<open>json.dump\<close>: the open
  raises (nothing touched); the open succeeds, which truncates the file, and the dump
  raises after so many characters reached the file; or all of the text is written.
\<close>

datatype write_outcome = OpenRaises | DumpRaisesAfter nat | WriteOk

text \<open>
  \<^verbatim>\<open>save_config_dict\<close> (lines 101-109) on a file system from names to contents.
  \<open>json_dumps\<close> is the library's serialisation of the dictionary (with \<^verbatim>\<open>indent=2\<close>).
\<close>

definition save_config_dict ::
  "('c \<Rightarrow> string) \<Rightarrow> write_outcome \<Rightarrow> 'c \<Rightarrow> string \<Rightarrow> (string \<rightharpoonup> string) \<Rightarrow> bool \<times> (string \<rightharpoonup> string)" where
  "save_config_dict json_dumps outcome config_dict filename fs =
     (case outcome of
        OpenRaises \<Rightarrow> (False, fs)
      | DumpRaisesAfter n \<Rightarrow> (False, fs(filename \<mapsto> take n (json_dumps config_dict)))
      | WriteOk \<Rightarrow> (True, fs(filename \<mapsto> json_dumps config_dict)))"

section \<open>What the proofs track\<close>

text \<open>
  A trace is in range when every \<^verbatim>\<open>set_volume_percent\<close> call in it carries a value
  from 0 to 100.
\<close>

fun volume_ok :: "event \<Rightarrow> bool" where
  "volume_ok (SetVolumePercent z v) = (0 \<le> v \<and> v \<le> 100)"
| "volume_ok e = True"

definition volumes_in_range :: "event list \<Rightarrow> bool" where
  "volumes_in_range tr = list_all volume_ok tr"

text \<open>
  What no method of the wrapper undoes: an existing \<^verbatim>\<open>RoonApi\<close> object stays, the
  bound zone and the step are not touched, and a trace in range stays in range.
\<close>

definition kept :: "controller \<Rightarrow> controller \<Rightarrow> bool" where
  "kept s s' \<longleftrightarrow>
     (roonapi s \<longrightarrow> roonapi s') \<and> zone_output_id s' = zone_output_id s \<and>
     volume_step s' = volume_step s \<and>
     (volumes_in_range (trace s) \<longrightarrow> volumes_in_range (trace s'))"

section \<open>A concrete controller for the examples\<close>

text \<open>
  A controller after start-up: the \<^verbatim>\<open>RoonApi\<close> object exists, the zone
  \<^verbatim>\<open>"zone-1"\<close> is bound, the step is the default 5, nothing has been called yet and
  no answer of the services is fixed.
\<close>

definition bound_controller :: controller where
  "bound_controller =
     \<lparr>roonapi = True, zone_output_id = PStr ''zone-1'', volume_step = 5,
      mqtt_connected = True, roon_connection_healthy = True, last_successful_command = 0,
      knob_battery = PNone, knob_last_seen = None, knob_voltage = PNone,
      knob_linkquality = PNone, now = 1000, trace = [], responses = []\<rparr>"

text \<open>
  The same controller facing a service that raises on the next four calls and then
  enumerates one output. (With \<open>bound_controller\<close> itself every call raises.)
\<close>

definition flaky_controller :: controller where
  "flaky_controller =
     bound_controller\<lparr>responses :=
       [Raises, Raises, Raises, Raises, ReturnsOutputs [(''o1'', Some ''Kitchen'')]]\<rparr>"

text \<open>
  The string made of the lone surrogate U+D800 (its three bytes), and the JSON text
  that decodes to it: a backslash and \<^verbatim>\<open>ud800\<close> between double quotes.
\<close>

definition lone_surrogate :: string where
  "lone_surrogate = [CHR 0xED, CHR 0xA0, CHR 0x80]"

definition lone_surrogate_json :: string where
  "lone_surrogate_json = [CHR 0x22, CHR 0x5C] @ ''ud800'' @ [CHR 0x22]"

text \<open>
  What \<^verbatim>\<open>json.loads\<close> gives on three payloads: the JSON number \<^verbatim>\<open>5\<close> decodes to
  the integer 5, the escaped surrogate to the one-character string, and the cut-off
  text \<^verbatim>\<open>{\<close> raises (\<^verbatim>\<open>JSONDecodeError\<close>, a \<^verbatim>\<open>ValueError\<close>); any other text is
  taken as undecodable here.
\<close>

definition sample_loads :: "string \<Rightarrow> exn + pyval" where
  "sample_loads text =
     (if text = ''5'' then Inr (PInt 5)
      else if text = lone_surrogate_json then Inr (PStr lone_surrogate)
      else Inl ValueError)"

text \<open>
  An output stream in UTF-8: every log line prints, but one that interpolates the
  lone-surrogate string.
\<close>

definition sample_prints :: "string \<Rightarrow> pyval \<Rightarrow> bool" where
  "sample_prints label v = (v \<noteq> PStr lone_surrogate)"

text \<open>
  What \<^verbatim>\<open>json.dumps(..., indent=2)\<close> gives on a dictionary with the one key
  \<^verbatim>\<open>volume\<close>: an opening brace, the indented entry and the closing brace, on three
  lines.
\<close>

definition sample_dumps :: "int \<Rightarrow> string" where
  "sample_dumps volume =
     ''{'' @ [CHR 0x0A] @ ''  '' @ [CHR 0x22] @ ''volume'' @ [CHR 0x22] @ '': '' @
     (if volume = 15 then ''15'' else ''20'') @ [CHR 0x0A] @ ''}''"

section \<open>Basic facts about calls and the retry wrapper\<close>

lemma range3: "[0..<3] = [0, 1, 2]"
  by (simp add: upt_rec)

lemma snd_call: "snd (call e s) = s\<lparr>trace := trace s @ [e], responses := tl (responses s)\<rparr>"
  by (cases "responses s") (simp_all add: call_def)

lemma fst_call: "fst (call e s) = (case responses s of [] \<Rightarrow> Raises | r # rs \<Rightarrow> r)"
  by (simp add: call_def split: list.splits)

text \<open>An attempt that reaches the command, and whose command returns, ends the loop.\<close>

lemma attempts_invoked_ok:
  "ensure_roonapi s = (True, s1) \<Longrightarrow> command_func s1 = (Inr result, s2) \<Longrightarrow>
   attempts command_func max_retries (attempt # rest) s =
     (result, s2\<lparr>last_successful_command := now s2, roon_connection_healthy := True\<rparr>)"
  by simp

lemma robust_live_ok:
  assumes "roonapi s" and "command_func s = (Inr result, s')" and "0 < max_retries"
  shows "robust_roon_command command_func max_retries s =
     (result, s'\<lparr>last_successful_command := now s', roon_connection_healthy := True\<rparr>)"
proof -
  have "[0..<max_retries] = 0 # [1..<max_retries]"
    using assms(3) by (simp add: upt_conv_Cons)
  moreover have "ensure_roonapi s = (True, s)"
    using assms(1) by (simp add: ensure_roonapi_def)
  ultimately show ?thesis
    using assms(2) by (simp add: robust_roon_command_def)
qed

lemma inner_set_volume_live:
  assumes "roonapi s" and "truthy (zone_output_id s)"
  shows "inner_set_volume v s =
           (Inr (PBool (fst (call (SetVolumePercent (zone_output_id s) (max 0 (min 100 v))) s) \<noteq> Raises)),
            snd (call (SetVolumePercent (zone_output_id s) (max 0 (min 100 v))) s))"
  using assms
  by (auto simp add: inner_set_volume_def Let_def split: prod.splits resp.splits)

lemma set_volume_live:
  assumes "roonapi s" and "truthy (zone_output_id s)"
  shows "trace (snd (set_volume v s)) =
           trace s @ [SetVolumePercent (zone_output_id s) (max 0 (min 100 v))]"
  unfolding set_volume_def
  by (subst robust_live_ok [where s' = "snd (call (SetVolumePercent (zone_output_id s) (max 0 (min 100 v))) s)"])
     (simp_all add: assms inner_set_volume_live snd_call)

section \<open>Invariants of setup, polling and the retry loop\<close>

lemma kept_refl: "kept s s"
  by (simp add: kept_def)

lemma kept_trans: "kept s s1 \<Longrightarrow> kept s1 s2 \<Longrightarrow> kept s s2"
  by (simp add: kept_def)

lemma kept_call: "volume_ok e \<Longrightarrow> kept s (snd (call e s))"
  by (simp add: kept_def volumes_in_range_def snd_call)

lemma kept_call_eq: "call e s = (r, s1) \<Longrightarrow> volume_ok e \<Longrightarrow> kept s s1"
  using kept_call [of e s] by simp

lemma kept_sleep: "kept s (sleep n s)"
  by (simp add: kept_def volumes_in_range_def sleep_def)

lemma kept_healthy: "kept s (s\<lparr>roon_connection_healthy := b\<rparr>)"
  by (simp add: kept_def)

lemma kept_success:
  "kept s (s\<lparr>last_successful_command := t, roon_connection_healthy := b\<rparr>)"
  by (simp add: kept_def)

lemma wait_step:
  assumes "waited_time < 300"
    and "call ReadZones s = (zones, s1)"
    and "call ReadOutputs s1 = (outs, s2)"
    and "call WriteToken s2 = (tok, s3)"
  shows "wait_authorization waited_time s =
    (if zones = Raises then wait_authorization (waited_time + 5) (sleep 5 s1)
     else if outs = Raises then wait_authorization (waited_time + 5) (sleep 5 s2)
     else if zones \<noteq> Returns PNone \<and> outs \<noteq> Returns PNone then
       (if tok = Raises then wait_authorization (waited_time + 5) (sleep 5 s3)
        else (True, s3\<lparr>roon_connection_healthy := True\<rparr>))
     else wait_authorization (waited_time + 5) (sleep 5 s2))"
  using assms
  by (subst wait_authorization.simps) (simp split: resp.splits)

lemma wait_timeout:
  "\<not> waited_time < 300 \<Longrightarrow>
   wait_authorization waited_time s = (False, s\<lparr>roon_connection_healthy := False\<rparr>)"
  by (subst wait_authorization.simps) simp

lemma kept_wait: "kept s (snd (wait_authorization w s))"
proof (induction "300 - w" arbitrary: w s rule: less_induct)
  case less
  show ?case
  proof (cases "w < 300")
    case False
    then show ?thesis
      by (simp add: wait_timeout kept_healthy)
  next
    case True
    obtain zones s1 where z: "call ReadZones s = (zones, s1)" by (cases "call ReadZones s")
    obtain outs s2 where out: "call ReadOutputs s1 = (outs, s2)" by (cases "call ReadOutputs s1")
    obtain tok s3 where w: "call WriteToken s2 = (tok, s3)" by (cases "call WriteToken s2")
    have IH: "kept s' (snd (wait_authorization (w + 5) s'))" for s'
      using less [of "w + 5" s'] True by simp
    have k1: "kept s s1" using z by (rule kept_call_eq) simp
    have k2: "kept s s2" using kept_trans [OF k1 kept_call_eq [OF out]] by simp
    have k3: "kept s s3" using kept_trans [OF k2 kept_call_eq [OF w]] by simp
    have t1: "kept s (snd (wait_authorization (w + 5) (sleep 5 s1)))"
      using k1 kept_sleep IH kept_trans by blast
    have t2: "kept s (snd (wait_authorization (w + 5) (sleep 5 s2)))"
      using k2 kept_sleep IH kept_trans by blast
    have t3: "kept s (snd (wait_authorization (w + 5) (sleep 5 s3)))"
      using k3 kept_sleep IH kept_trans by blast
    have t4: "kept s (s3\<lparr>roon_connection_healthy := True\<rparr>)"
      using k3 kept_healthy kept_trans by blast
    show ?thesis
      by (simp add: wait_step [OF True z out w] t1 t2 t3 t4)
  qed
qed

lemma kept_setup: "kept s (snd (setup_roon s))"
proof -
  obtain r s1 where c: "call RoonApiInit s = (r, s1)" by (cases "call RoonApiInit s")
  have k1: "kept s s1" using c by (rule kept_call_eq) simp
  have k2: "kept s (s1\<lparr>roon_connection_healthy := False\<rparr>)"
    using k1 kept_healthy kept_trans by blast
  have "kept s1 (s1\<lparr>roonapi := True\<rparr>)" by (simp add: kept_def)
  then have k3: "kept s (snd (wait_authorization 0 (s1\<lparr>roonapi := True\<rparr>)))"
    using k1 kept_wait kept_trans by blast
  show ?thesis
    using c k2 k3 by (simp add: setup_roon_def split: resp.splits)
qed

lemma kept_ensure: "kept s (snd (ensure_roonapi s))"
  by (simp add: ensure_roonapi_def kept_setup kept_refl)

text \<open>The retry loop keeps what every run of the command keeps.\<close>

lemma kept_attempts:
  assumes f: "\<And>s. kept s (snd (command_func s))"
  shows "kept s (snd (attempts command_func max_retries xs s))"
proof (induction xs arbitrary: s)
  case Nil
  show ?case by (simp add: kept_refl)
next
  case (Cons attempt rest)
  obtain ok s1 where e: "ensure_roonapi s = (ok, s1)" by (cases "ensure_roonapi s")
  obtain r s2 where c: "command_func s1 = (r, s2)" by (cases "command_func s1")
  have k1: "kept s s1" using kept_ensure [of s] e by simp
  have k2: "kept s s2" using f [of s1] c kept_trans [OF k1] by simp
  have a1: "kept s (snd (attempts command_func max_retries rest (sleep 3 s1)))"
    using k1 kept_sleep Cons.IH kept_trans by blast
  have a2: "kept s (s1\<lparr>roon_connection_healthy := False\<rparr>)"
    using k1 kept_healthy kept_trans by blast
  have a3: "kept s (s2\<lparr>last_successful_command := now s2, roon_connection_healthy := True\<rparr>)"
    using k2 kept_success kept_trans by blast
  have "kept s2 (snd (setup_roon (sleep 2 s2)))"
    using kept_sleep kept_setup kept_trans by blast
  then have a4: "kept s (snd (attempts command_func max_retries rest (snd (setup_roon (sleep 2 s2)))))"
    using k2 Cons.IH kept_trans by blast
  have a5: "kept s (snd (attempts command_func max_retries rest (s2\<lparr>roon_connection_healthy := False\<rparr>)))"
    using k2 kept_healthy Cons.IH kept_trans by blast
  show ?case
    using e c a1 a2 a3 a4 a5 by (simp split: sum.splits)
qed

lemma kept_robust:
  "(\<And>s. kept s (snd (command_func s))) \<Longrightarrow>
   kept s (snd (robust_roon_command command_func max_retries s))"
  by (simp add: robust_roon_command_def kept_attempts)


lemma kept_inner_get_volume: "kept s (snd (inner_get_volume s))"
proof -
  obtain r s1 where c: "call (GetVolumePercent (zone_output_id s)) s = (r, s1)"
    by (cases "call (GetVolumePercent (zone_output_id s)) s")
  have "kept s s1" using c by (rule kept_call_eq) simp
  then show ?thesis
    using c by (simp add: inner_get_volume_def kept_refl split: resp.splits)
qed

lemma kept_inner_set_volume: "kept s (snd (inner_set_volume v s))"
proof -
  obtain r s1 where c: "call (SetVolumePercent (zone_output_id s) (max 0 (min 100 v))) s = (r, s1)"
    by (cases "call (SetVolumePercent (zone_output_id s) (max 0 (min 100 v))) s")
  have "kept s s1" using c by (rule kept_call_eq) simp
  then show ?thesis
    using c by (simp add: inner_set_volume_def kept_refl split: resp.splits)
qed

lemma kept_control_playback: "kept s (snd (control_playback z v s))"
proof -
  obtain r1 s1 where c1: "call (PlaybackControl z v) s = (r1, s1)"
    by (cases "call (PlaybackControl z v) s")
  obtain r2 s2 where c2: "call (PlaybackControl z ''playpause'') s1 = (r2, s2)"
    by (cases "call (PlaybackControl z ''playpause'') s1")
  have k1: "kept s s1" using c1 by (rule kept_call_eq) simp
  have k2: "kept s s2" using kept_trans [OF k1 kept_call_eq [OF c2]] by simp
  show ?thesis
    using c1 c2 k1 k2 by (simp add: control_playback_def split: resp.splits)
qed

lemma kept_inner_toggle_playback: "kept s (snd (inner_toggle_playback s))"
proof -
  obtain r s1 where c: "call ReadZones s = (r, s1)" by (cases "call ReadZones s")
  have k1: "kept s s1" using c by (rule kept_call_eq) simp
  have k2: "kept s (snd (control_playback z v s1))" for z v
    using kept_trans [OF k1 kept_control_playback] .
  show ?thesis
    using c k1 k2
    by (simp add: inner_toggle_playback_def kept_refl Let_def
        split: resp.splits option.splits prod.splits)
qed

lemma kept_get_current_volume: "kept s (snd (get_current_volume s))"
  by (simp add: get_current_volume_def kept_robust kept_inner_get_volume)

lemma kept_set_volume: "kept s (snd (set_volume v s))"
  by (simp add: set_volume_def kept_robust kept_inner_set_volume)

lemma kept_toggle_playback: "kept s (toggle_playback s)"
  by (simp add: toggle_playback_def kept_robust kept_inner_toggle_playback)

lemma kept_change_volume: "kept s (snd (change_volume delta s))"
proof -
  obtain current s1 where g: "get_current_volume s = (current, s1)"
    by (cases "get_current_volume s")
  have k1: "kept s s1" using kept_get_current_volume [of s] g by simp
  have k2: "kept s (snd (set_volume v s1))" for v
    using kept_trans [OF k1 kept_set_volume] .
  show ?thesis
    using g k1 k2
    by (simp add: change_volume_def Let_def split_def split: sum.splits)
qed

lemma snd_handle_knob_action:
  "snd (handle_knob_action action s) =
     (if \<not> truthy (zone_output_id s) then s
      else if action = PStr ''rotate_left'' then snd (change_volume (- volume_step s) s)
      else if action = PStr ''rotate_right'' then snd (change_volume (volume_step s) s)
      else if action = PStr ''single'' then toggle_playback s
      else if action = PStr ''double'' then snd (set_volume 50 s)
      else if action = PStr ''hold'' then snd (set_volume 0 s)
      else s)"
proof -
  obtain r1 s1 where l: "change_volume (- volume_step s) s = (r1, s1)"
    by (cases "change_volume (- volume_step s) s")
  obtain r2 s2 where r: "change_volume (volume_step s) s = (r2, s2)"
    by (cases "change_volume (volume_step s) s")
  show ?thesis
    by (cases r1; cases r2) (simp_all add: handle_knob_action_def l r)
qed

lemma kept_handle_knob_action: "kept s (snd (handle_knob_action action s))"
  by (simp add: snd_handle_knob_action kept_refl kept_change_volume kept_toggle_playback
      kept_set_volume)

lemma kept_range: "kept s s' \<Longrightarrow> volumes_in_range (trace s) \<Longrightarrow> volumes_in_range (trace s')"
  by (simp add: kept_def)

lemma get_current_volume_live:
  assumes "roonapi s" and "truthy (zone_output_id s)" and "responses s = Returns v # rs"
  shows "get_current_volume s =
    (v, s\<lparr>trace := trace s @ [GetVolumePercent (zone_output_id s)], responses := rs,
          last_successful_command := now s, roon_connection_healthy := True\<rparr>)"
proof -
  have "inner_get_volume s =
      (Inr v, s\<lparr>trace := trace s @ [GetVolumePercent (zone_output_id s)], responses := rs\<rparr>)"
    using assms by (simp add: inner_get_volume_def call_def)
  from robust_live_ok [where command_func = inner_get_volume, OF assms(1) this, of 3] show ?thesis
    by (simp add: get_current_volume_def)
qed

lemma change_volume_live:
  assumes "roonapi s" and "truthy (zone_output_id s)" and "responses s = Returns (PInt c) # rs"
  shows "trace (snd (change_volume delta s)) =
    trace s @ [GetVolumePercent (zone_output_id s),
               SetVolumePercent (zone_output_id s) (max 0 (min 100 (c + delta)))]"
proof -
  let ?s1 = "s\<lparr>trace := trace s @ [GetVolumePercent (zone_output_id s)], responses := rs,
          last_successful_command := now s, roon_connection_healthy := True\<rparr>"
  have g: "get_current_volume s = (PInt c, ?s1)"
    using get_current_volume_live [OF assms] .
  have "roonapi ?s1" and "truthy (zone_output_id ?s1)"
    using assms by simp_all
  from set_volume_live [OF this, of "max 0 (min 100 (c + delta))"]
  have t: "trace (snd (set_volume (max 0 (min 100 (c + delta))) ?s1)) =
      trace s @ [GetVolumePercent (zone_output_id s),
                 SetVolumePercent (zone_output_id s) (max 0 (min 100 (c + delta)))]"
    by simp
  show ?thesis
    using g t by (simp add: change_volume_def Let_def split_def)
qed

section \<open>Three attempts\<close>

lemma setup_roon_raises:
  "responses s = Raises # rs \<Longrightarrow>
   setup_roon s = (False, s\<lparr>trace := trace s @ [RoonApiInit], responses := rs,
                            roon_connection_healthy := False\<rparr>)"
  by (simp add: setup_roon_def call_def)

lemma setup_roon_silent:
  "responses s = [] \<Longrightarrow>
   setup_roon s = (False, s\<lparr>trace := trace s @ [RoonApiInit], roon_connection_healthy := False\<rparr>)"
  by (simp add: setup_roon_def call_def)

lemma inner_find_zone_raises:
  "roonapi s \<Longrightarrow> responses s = Raises # rs \<Longrightarrow>
   inner_find_zone zone_id zone_name s =
     (Inl ServiceError, s\<lparr>trace := trace s @ [ReadOutputs], responses := rs\<rparr>)"
  by (simp add: inner_find_zone_def call_def)

lemma inner_find_zone_silent:
  "roonapi s \<Longrightarrow> responses s = [] \<Longrightarrow>
   inner_find_zone zone_id zone_name s = (Inl ServiceError, s\<lparr>trace := trace s @ [ReadOutputs]\<rparr>)"
  by (simp add: inner_find_zone_def call_def)

lemma inner_find_zone_outputs:
  "roonapi s \<Longrightarrow> responses s = ReturnsOutputs outputs # rs \<Longrightarrow>
   inner_find_zone zone_id zone_name s =
     (Inr (find_zone zone_id zone_name outputs),
      s\<lparr>trace := trace s @ [ReadOutputs], responses := rs\<rparr>)"
  by (simp add: inner_find_zone_def call_def)

text \<open>
  Claim C3. \<^verbatim>\<open>robust_roon_command\<close> with \<^verbatim>\<open>max_retries=3\<close>, when each of the three
  attempts reaches the command (the \<^verbatim>\<open>RoonApi\<close> object is there, or the reconnect
  succeeds) and the command raises on attempts 1 and 2: if it returns on attempt 3, the
  wrapper returns that result, marks the session healthy and sets
  \<^verbatim>\<open>last_successful_command\<close> to the current time; if it raises on attempt 3 as well,
  the wrapper returns \<^verbatim>\<open>False\<close>, raises nothing and marks the session unhealthy.
  Between the attempts it sleeps 2 seconds and runs \<^verbatim>\<open>setup_roon\<close>.
\<close>

theorem retry_three_attempts:
  assumes "ensure_roonapi s0 = (True, a1)" and "command_func a1 = (Inl e1, b1)"
    and "ensure_roonapi (snd (setup_roon (sleep 2 b1))) = (True, a2)"
    and "command_func a2 = (Inl e2, b2)"
    and "ensure_roonapi (snd (setup_roon (sleep 2 b2))) = (True, a3)"
  shows "(command_func a3 = (Inr result, b3) \<longrightarrow>
            robust_roon_command command_func 3 s0 =
              (result, b3\<lparr>last_successful_command := now b3, roon_connection_healthy := True\<rparr>))
       \<and> (command_func a3 = (Inl e3, b3) \<longrightarrow>
            robust_roon_command command_func 3 s0 =
              (PBool False, b3\<lparr>roon_connection_healthy := False\<rparr>))"
  using assms by (simp add: robust_roon_command_def range3)

theorem retry_three_attempts_witness:
  "fst (robust_roon_command (inner_find_zone None (Some ''Kitchen'')) 3 flaky_controller) = PStr ''o1''
   \<and> roon_connection_healthy
       (snd (robust_roon_command (inner_find_zone None (Some ''Kitchen'')) 3 flaky_controller))
   \<and> last_successful_command
       (snd (robust_roon_command (inner_find_zone None (Some ''Kitchen'')) 3 flaky_controller)) = 1004
   \<and> fst (robust_roon_command (inner_find_zone None (Some ''Kitchen'')) 3 bound_controller) = PBool False
   \<and> \<not> roon_connection_healthy
       (snd (robust_roon_command (inner_find_zone None (Some ''Kitchen'')) 3 bound_controller))"
proof -
  let ?f = "inner_find_zone None (Some ''Kitchen'')"
  let ?b1 = "snd (?f flaky_controller)"
  let ?a2 = "snd (setup_roon (sleep 2 ?b1))"
  let ?b2 = "snd (?f ?a2)"
  let ?a3 = "snd (setup_roon (sleep 2 ?b2))"
  let ?b3 = "snd (?f ?a3)"
  have h1: "ensure_roonapi flaky_controller = (True, flaky_controller)"
    by (simp add: ensure_roonapi_def flaky_controller_def bound_controller_def)
  have h2: "?f flaky_controller = (Inl ServiceError, ?b1)"
    by (simp add: flaky_controller_def bound_controller_def inner_find_zone_raises)
  have h3: "ensure_roonapi ?a2 = (True, ?a2)"
    by (simp add: ensure_roonapi_def flaky_controller_def bound_controller_def
        inner_find_zone_raises setup_roon_raises sleep_def)
  have h4: "?f ?a2 = (Inl ServiceError, ?b2)"
    by (simp add: flaky_controller_def bound_controller_def
        inner_find_zone_raises setup_roon_raises sleep_def)
  have h5: "ensure_roonapi ?a3 = (True, ?a3)"
    by (simp add: ensure_roonapi_def flaky_controller_def bound_controller_def
        inner_find_zone_raises setup_roon_raises sleep_def)
  have h6: "?f ?a3 = (Inr (PStr ''o1''), ?b3)"
    by (simp add: flaky_controller_def bound_controller_def inner_find_zone_outputs
        inner_find_zone_raises setup_roon_raises sleep_def find_zone_def name_matches_def
        display_name_of_def)
  have ok: "robust_roon_command ?f 3 flaky_controller =
      (PStr ''o1'', ?b3\<lparr>last_successful_command := now ?b3, roon_connection_healthy := True\<rparr>)"
    using retry_three_attempts [OF h1 h2 h3 h4 h5, of "PStr ''o1''" ?b3] h6 by simp
  have t: "now ?b3 = 1004"
    by (simp add: flaky_controller_def bound_controller_def inner_find_zone_outputs
        inner_find_zone_raises setup_roon_raises sleep_def)
  let ?c1 = "snd (?f bound_controller)"
  let ?d2 = "snd (setup_roon (sleep 2 ?c1))"
  let ?c2 = "snd (?f ?d2)"
  let ?d3 = "snd (setup_roon (sleep 2 ?c2))"
  let ?c3 = "snd (?f ?d3)"
  have g1: "ensure_roonapi bound_controller = (True, bound_controller)"
    by (simp add: ensure_roonapi_def bound_controller_def)
  have g2: "?f bound_controller = (Inl ServiceError, ?c1)"
    by (simp add: bound_controller_def inner_find_zone_silent)
  have g3: "ensure_roonapi ?d2 = (True, ?d2)"
    by (simp add: ensure_roonapi_def bound_controller_def
        inner_find_zone_silent setup_roon_silent sleep_def)
  have g4: "?f ?d2 = (Inl ServiceError, ?c2)"
    by (simp add: bound_controller_def inner_find_zone_silent setup_roon_silent sleep_def)
  have g5: "ensure_roonapi ?d3 = (True, ?d3)"
    by (simp add: ensure_roonapi_def bound_controller_def
        inner_find_zone_silent setup_roon_silent sleep_def)
  have g6: "?f ?d3 = (Inl ServiceError, ?c3)"
    by (simp add: bound_controller_def inner_find_zone_silent setup_roon_silent sleep_def)
  have bad: "robust_roon_command ?f 3 bound_controller =
      (PBool False, ?c3\<lparr>roon_connection_healthy := False\<rparr>)"
    using retry_three_attempts [OF g1 g2 g3 g4 g5, of _ ?c3 ServiceError] g6 by simp
  show ?thesis
    by (simp add: ok bad t)
qed

section \<open>A return is a success, whatever is returned\<close>

lemma roonapi_after_retry: "roonapi s \<Longrightarrow> roonapi (snd (setup_roon (sleep 2 s)))"
  using kept_trans [OF kept_sleep kept_setup, of s 2] by (simp add: kept_def)

lemma ensure_live: "roonapi s \<Longrightarrow> ensure_roonapi s = (True, s)"
  by (simp add: ensure_roonapi_def)

text \<open>
  Claim C10. In \<^verbatim>\<open>robust_roon_command\<close> an attempt whose command returns (no
  exception) ends the loop as a success, whatever the value: the wrapper hands the value
  on, marks the session healthy and sets \<^verbatim>\<open>last_successful_command\<close>. So a volume
  read with no zone bound gives \<^verbatim>\<open>None\<close> and a healthy session; and a command that
  returns \<^verbatim>\<open>False\<close> gives the caller the very value, \<^verbatim>\<open>False\<close>, that a command
  raising on all three attempts gives (only the health flag differs).
\<close>

theorem falsy_return_is_success:
  "(ensure_roonapi s = (True, s1) \<and> command_func s1 = (Inr result, s2) \<longrightarrow>
      attempts command_func max_retries (attempt # rest) s =
        (result, s2\<lparr>last_successful_command := now s2, roon_connection_healthy := True\<rparr>))
   \<and> (roonapi s \<and> \<not> truthy (zone_output_id s) \<longrightarrow>
        get_current_volume s =
          (PNone, s\<lparr>last_successful_command := now s, roon_connection_healthy := True\<rparr>))
   \<and> (roonapi s \<longrightarrow>
        fst (robust_roon_command (\<lambda>s. (Inr (PBool False), s)) 3 s) = PBool False \<and>
        roon_connection_healthy (snd (robust_roon_command (\<lambda>s. (Inr (PBool False), s)) 3 s)) \<and>
        fst (robust_roon_command (\<lambda>s. (Inl e, s)) 3 s) = PBool False \<and>
        \<not> roon_connection_healthy (snd (robust_roon_command (\<lambda>s. (Inl e, s)) 3 s)))"
proof (intro conjI impI)
  assume "ensure_roonapi s = (True, s1) \<and> command_func s1 = (Inr result, s2)"
  then show "attempts command_func max_retries (attempt # rest) s =
        (result, s2\<lparr>last_successful_command := now s2, roon_connection_healthy := True\<rparr>)"
    by (simp add: attempts_invoked_ok)
next
  assume a: "roonapi s \<and> \<not> truthy (zone_output_id s)"
  then have "inner_get_volume s = (Inr PNone, s)"
    by (simp add: inner_get_volume_def)
  with a show "get_current_volume s =
          (PNone, s\<lparr>last_successful_command := now s, roon_connection_healthy := True\<rparr>)"
    unfolding get_current_volume_def
    using robust_live_ok [where command_func = inner_get_volume and s = s and s' = s and max_retries = 3]
    by simp
next
  assume live: "roonapi s"
  let ?ok = "\<lambda>s::controller. (Inr (PBool False) :: exn + pyval, s)"
  have r: "robust_roon_command ?ok 3 s =
      (PBool False, s\<lparr>last_successful_command := now s, roon_connection_healthy := True\<rparr>)"
    using robust_live_ok [where command_func = ?ok and s = s and s' = s and max_retries = 3] live
    by simp
  show "fst (robust_roon_command ?ok 3 s) = PBool False"
    and "roon_connection_healthy (snd (robust_roon_command ?ok 3 s))"
    by (simp_all add: r)
  let ?bad = "\<lambda>s::controller. (Inl e :: exn + pyval, s)"
  let ?s1 = "snd (setup_roon (sleep 2 s))"
  let ?s2 = "snd (setup_roon (sleep 2 ?s1))"
  have l1: "roonapi ?s1" using live by (rule roonapi_after_retry)
  have l2: "roonapi ?s2" using l1 by (rule roonapi_after_retry)
  have b: "robust_roon_command ?bad 3 s = (PBool False, ?s2\<lparr>roon_connection_healthy := False\<rparr>)"
    by (simp add: robust_roon_command_def range3 ensure_live live l1 l2)
  show "fst (robust_roon_command ?bad 3 s) = PBool False"
    and "\<not> roon_connection_healthy (snd (robust_roon_command ?bad 3 s))"
    by (simp_all add: b)
qed

theorem falsy_return_is_success_witness:
  "get_current_volume (bound_controller\<lparr>zone_output_id := PNone, roon_connection_healthy := False\<rparr>) =
     (PNone, bound_controller\<lparr>zone_output_id := PNone, roon_connection_healthy := True,
                              last_successful_command := 1000\<rparr>)
   \<and> fst (robust_roon_command (\<lambda>s. (Inr (PBool False), s)) 3 bound_controller) =
     fst (robust_roon_command (\<lambda>s. (Inl ServiceError, s)) 3 bound_controller)
   \<and> attempts (\<lambda>s. (Inr PNone, s)) 3 [2] bound_controller =
     (PNone, bound_controller\<lparr>last_successful_command := 1000\<rparr>)"
proof -
  have e: "ensure_roonapi bound_controller = (True, bound_controller)"
    by (simp add: ensure_roonapi_def bound_controller_def)
  show ?thesis
    using falsy_return_is_success
        [of "bound_controller\<lparr>zone_output_id := PNone, roon_connection_healthy := False\<rparr>"
            "bound_controller\<lparr>zone_output_id := PNone, roon_connection_healthy := False\<rparr>"
            inner_get_volume PNone
            "bound_controller\<lparr>zone_output_id := PNone, roon_connection_healthy := False\<rparr>"
            3 0 "[]" ServiceError]
      falsy_return_is_success
        [of bound_controller bound_controller "\<lambda>s. (Inr PNone, s)" PNone bound_controller
            3 2 "[]" ServiceError] e
    by (simp add: bound_controller_def)
qed

section \<open>Zone resolution\<close>

text \<open>\<open>str_in\<close> is the substring test: some prefix and suffix surround the needle.\<close>

lemma is_prefix_iff: "is_prefix xs ys \<longleftrightarrow> (\<exists>ss. ys = xs @ ss)"
  by (induction xs ys rule: is_prefix.induct) auto

lemma str_in_iff: "str_in xs ys \<longleftrightarrow> (\<exists>ps ss. ys = ps @ xs @ ss)"
proof (induction ys)
  case Nil
  show ?case by auto
next
  case (Cons y ys)
  have "(\<exists>ps ss. y # ys = ps @ xs @ ss) \<longleftrightarrow>
        (\<exists>ss. y # ys = xs @ ss) \<or> (\<exists>ps ss. ys = ps @ xs @ ss)"
  proof
    assume "\<exists>ps ss. y # ys = ps @ xs @ ss"
    then obtain ps ss where e: "y # ys = ps @ xs @ ss" by blast
    show "(\<exists>ss. y # ys = xs @ ss) \<or> (\<exists>ps ss. ys = ps @ xs @ ss)"
    proof (cases ps)
      case Nil
      with e show ?thesis by auto
    next
      case (Cons p ps')
      with e have "ys = ps' @ xs @ ss" by simp
      then show ?thesis by blast
    qed
  next
    assume "(\<exists>ss. y # ys = xs @ ss) \<or> (\<exists>ps ss. ys = ps @ xs @ ss)"
    then show "\<exists>ps ss. y # ys = ps @ xs @ ss"
    proof
      assume "\<exists>ss. y # ys = xs @ ss"
      then obtain ss where "y # ys = [] @ xs @ ss" by auto
      then show ?thesis by blast
    next
      assume "\<exists>ps ss. ys = ps @ xs @ ss"
      then obtain ps ss where "y # ys = (y # ps) @ xs @ ss" by auto
      then show ?thesis by blast
    qed
  qed
  with Cons show ?case by (simp add: is_prefix_iff)
qed

lemma name_matches_iff:
  "name_matches n info \<longleftrightarrow> (\<exists>p q. display_name_of info = p @ n @ q)"
proof -
  have "\<exists>p q. d = p @ d @ q" for d :: string
    by (rule exI [of _ "[]"], rule exI [of _ "[]"]) simp
  then show ?thesis
    unfolding name_matches_def Let_def str_in_iff by auto
qed

lemma first_by_name_found:
  "\<forall>(i, d) \<in> set before. \<not> name_matches n d \<Longrightarrow> name_matches n info \<Longrightarrow>
   first_by_name n (before @ (output_id, info) # rest) = PStr output_id"
  by (induction before) auto

lemma first_by_name_none:
  "\<forall>(i, d) \<in> set outputs. \<not> name_matches n d \<Longrightarrow> first_by_name n outputs = PNone"
  by (induction outputs) auto

text \<open>
  Claim C5. One attempt of \<^verbatim>\<open>find_zone_output_id\<close> on the enumerated outputs: a set
  (non-empty) identifier that is a key of the outputs is returned, whatever the name
  would match; otherwise a set name gives the first output, in enumeration order, whose
  display name contains the name (equality included); otherwise the attempt gives
  \<^verbatim>\<open>None\<close>. When the attempt's result is truthy the resolver returns it from its first
  attempt, after the single read of the outputs and without sleeping. With outputs
  \<^verbatim>\<open>o1: "Kitchen Display", o2: "Kitchen"\<close> the name \<^verbatim>\<open>"Kitchen"\<close> resolves to
  \<^verbatim>\<open>o1\<close>.
\<close>

theorem zone_resolution_priority:
  "(zone_id = Some z \<and> z \<noteq> [] \<and> z \<in> set (map fst outputs) \<longrightarrow>
      find_zone zone_id zone_name outputs = PStr z)
   \<and> (\<not> (\<exists>z. zone_id = Some z \<and> z \<noteq> [] \<and> z \<in> set (map fst outputs)) \<and>
       zone_name = Some n \<and> n \<noteq> [] \<and> outputs = before @ (output_id, info) # rest \<and>
       (\<forall>(i, d) \<in> set before. \<not> (\<exists>p q. display_name_of d = p @ n @ q)) \<and>
       (\<exists>p q. display_name_of info = p @ n @ q) \<longrightarrow>
      find_zone zone_id zone_name outputs = PStr output_id)
   \<and> (\<not> (\<exists>z. zone_id = Some z \<and> z \<noteq> [] \<and> z \<in> set (map fst outputs)) \<and>
       (zone_name = None \<or> zone_name = Some [] \<or>
        (\<exists>m. zone_name = Some m \<and>
             (\<forall>(i, d) \<in> set outputs. \<not> (\<exists>p q. display_name_of d = p @ m @ q)))) \<longrightarrow>
      find_zone zone_id zone_name outputs = PNone)
   \<and> (roonapi s \<and> responses s = ReturnsOutputs outputs # rs \<and> 0 < retries \<and>
       truthy (find_zone zone_id zone_name outputs) \<longrightarrow>
      fst (find_zone_output_id zone_id zone_name retries wait_time s) =
        find_zone zone_id zone_name outputs \<and>
      trace (snd (find_zone_output_id zone_id zone_name retries wait_time s)) =
        trace s @ [ReadOutputs])"
proof (intro conjI impI)
  assume "zone_id = Some z \<and> z \<noteq> [] \<and> z \<in> set (map fst outputs)"
  then show "find_zone zone_id zone_name outputs = PStr z"
    by (simp add: find_zone_def)
next
  assume a: "\<not> (\<exists>z. zone_id = Some z \<and> z \<noteq> [] \<and> z \<in> set (map fst outputs)) \<and>
       zone_name = Some n \<and> n \<noteq> [] \<and> outputs = before @ (output_id, info) # rest \<and>
       (\<forall>(i, d) \<in> set before. \<not> (\<exists>p q. display_name_of d = p @ n @ q)) \<and>
       (\<exists>p q. display_name_of info = p @ n @ q)"
  then have "first_by_name n outputs = PStr output_id"
    using first_by_name_found [of before n info output_id rest]
    by (simp add: name_matches_iff)
  moreover have "\<not> (z \<noteq> [] \<and> z \<in> set (map fst outputs))" if "zone_id = Some z" for z
    using a that by blast
  moreover have "zone_name = Some n" and "n \<noteq> []"
    using a by simp_all
  ultimately have "find_zone zone_id zone_name outputs = first_by_name n outputs"
    by (cases zone_id) (auto simp add: find_zone_def)
  moreover note \<open>first_by_name n outputs = PStr output_id\<close>
  ultimately show "find_zone zone_id zone_name outputs = PStr output_id" by simp
next
  assume a: "\<not> (\<exists>z. zone_id = Some z \<and> z \<noteq> [] \<and> z \<in> set (map fst outputs)) \<and>
       (zone_name = None \<or> zone_name = Some [] \<or>
        (\<exists>m. zone_name = Some m \<and>
             (\<forall>(i, d) \<in> set outputs. \<not> (\<exists>p q. display_name_of d = p @ m @ q))))"
  have "first_by_name m outputs = PNone"
    if "\<forall>(i, d) \<in> set outputs. \<not> (\<exists>p q. display_name_of d = p @ m @ q)" for m
    using that first_by_name_none [of outputs m] by (simp add: name_matches_iff)
  then show "find_zone zone_id zone_name outputs = PNone"
    using a by (cases zone_id; cases zone_name) (auto simp add: find_zone_def)
next
  assume a: "roonapi s \<and> responses s = ReturnsOutputs outputs # rs \<and> 0 < retries \<and>
       truthy (find_zone zone_id zone_name outputs)"
  let ?s1 = "s\<lparr>trace := trace s @ [ReadOutputs], responses := rs\<rparr>"
  have i: "inner_find_zone zone_id zone_name s = (Inr (find_zone zone_id zone_name outputs), ?s1)"
    using a by (simp add: inner_find_zone_outputs)
  have r: "robust_roon_command (inner_find_zone zone_id zone_name) 3 s =
      (find_zone zone_id zone_name outputs,
       ?s1\<lparr>last_successful_command := now ?s1, roon_connection_healthy := True\<rparr>)"
    using robust_live_ok [where command_func = "inner_find_zone zone_id zone_name" and s = s,
        OF _ i, of 3] a by simp
  have u: "[0..<retries] = 0 # [1..<retries]"
    using a by (simp add: upt_conv_Cons)
  show "fst (find_zone_output_id zone_id zone_name retries wait_time s) =
        find_zone zone_id zone_name outputs"
    and "trace (snd (find_zone_output_id zone_id zone_name retries wait_time s)) =
        trace s @ [ReadOutputs]"
    using a by (simp_all add: find_zone_output_id_def u r)
qed

theorem zone_resolution_priority_witness:
  "find_zone None (Some ''Kitchen'')
     [(''o1'', Some ''Kitchen Display''), (''o2'', Some ''Kitchen'')] = PStr ''o1''
   \<and> find_zone (Some ''o2'') (Some ''Kitchen'')
     [(''o1'', Some ''Kitchen Display''), (''o2'', Some ''Kitchen'')] = PStr ''o2''
   \<and> find_zone (Some ''o9'') (Some ''Bath'')
     [(''o1'', Some ''Kitchen Display''), (''o2'', Some ''Kitchen'')] = PNone"
proof -
  have m: "\<exists>p q. display_name_of (Some ''Kitchen Display'') = p @ ''Kitchen'' @ q"
    by (rule exI [of _ "[]"], rule exI [of _ "'' Display''"]) (simp add: display_name_of_def)
  have n1: "\<not> (\<exists>p q. display_name_of (Some ''Kitchen Display'') = p @ ''Bath'' @ q)"
    using name_matches_iff [of "''Bath''" "Some ''Kitchen Display''"]
    by (simp add: name_matches_def display_name_of_def)
  have n2: "\<not> (\<exists>p q. display_name_of (Some ''Kitchen'') = p @ ''Bath'' @ q)"
    using name_matches_iff [of "''Bath''" "Some ''Kitchen''"]
    by (simp add: name_matches_def display_name_of_def)
  show ?thesis
    using zone_resolution_priority [of None "''o0''"
        "[(''o1'', Some ''Kitchen Display''), (''o2'', Some ''Kitchen'')]" "Some ''Kitchen''"
        "''Kitchen''" "[]" "''o1''" "Some ''Kitchen Display''" "[(''o2'', Some ''Kitchen'')]"]
      zone_resolution_priority [of "Some ''o2''" "''o2''"
        "[(''o1'', Some ''Kitchen Display''), (''o2'', Some ''Kitchen'')]" "Some ''Kitchen''"]
      zone_resolution_priority [of "Some ''o9''" "''o9''"
        "[(''o1'', Some ''Kitchen Display''), (''o2'', Some ''Kitchen'')]" "Some ''Bath''"]
      m n1 n2
    by simp
qed

section \<open>Inbound messages that do not decode to a record\<close>

lemma read_field_not_dict:
  "\<forall>kvs. payload \<noteq> PDict kvs \<Longrightarrow>
   read_field key payload = Inl TypeError \<or> read_field key payload = Inr None"
  by (cases payload) (simp_all add: read_field_def)

lemma store_field_not_dict:
  "\<forall>kvs. payload \<noteq> PDict kvs \<Longrightarrow>
   store_field prints key label assign payload s = (False, s) \<or>
   store_field prints key label assign payload s = (True, s)"
  using read_field_not_dict [of payload key] by (auto simp add: store_field_def)

text \<open>
  Claim C8, as stated, fails for a payload that is valid JSON but no record: the
  payload \<^verbatim>\<open>5\<close> decodes to the integer 5 and is printed, \<^verbatim>\<open>knob_last_seen\<close> is
  assigned (line 489), and only then \<^verbatim>\<open>'battery' in payload\<close> raises. So the
  last-seen time changes.
\<close>

theorem number_payload_updates_last_seen:
  "sample_loads ''5'' = Inr (PInt 5) \<and>
   knob_last_seen bound_controller = None \<and>
   knob_last_seen (on_mqtt_message sample_loads sample_prints ''5'' bound_controller) = Some 1000"
  by (simp add: sample_loads_def sample_prints_def on_mqtt_message_def store_field_def
      read_field_def bound_controller_def)

text \<open>
  Claim C8, amended. When \<^verbatim>\<open>json.loads\<close> raises, \<^verbatim>\<open>on_mqtt_message\<close> leaves the
  controller as it was (battery, voltage, link quality and last-seen included, no call
  issued) and raises nothing. When the payload decodes to a value that is not a record
  (a dict), battery, voltage and link quality are unchanged, no action is read from the
  payload, so the dispatcher is not reached, no call is issued and nothing is raised;
  \<^verbatim>\<open>knob_last_seen\<close> is set to the current time when the log line of the decoded
  payload prints, and is unchanged, like all the rest, when that print raises.
\<close>

theorem undecodable_payload_dropped:
  "(json_loads msg_payload = Inl e \<longrightarrow> on_mqtt_message json_loads prints msg_payload s = s)
   \<and> (json_loads msg_payload = Inr payload \<and> (\<forall>kvs. payload \<noteq> PDict kvs) \<longrightarrow>
        on_mqtt_message json_loads prints msg_payload s =
          (if prints ''MQTT message'' payload then s\<lparr>knob_last_seen := Some (now s)\<rparr> else s) \<and>
        (\<forall>action. read_field ''action'' payload \<noteq> Inr (Some action)))"
proof (intro conjI impI)
  assume "json_loads msg_payload = Inl e"
  then show "on_mqtt_message json_loads prints msg_payload s = s"
    by (simp add: on_mqtt_message_def)
next
  assume a: "json_loads msg_payload = Inr payload \<and> (\<forall>kvs. payload \<noteq> PDict kvs)"
  then have nd: "\<forall>kvs. payload \<noteq> PDict kvs" by simp
  let ?s1 = "s\<lparr>knob_last_seen := Some (now s)\<rparr>"
  show na: "\<forall>action. read_field ''action'' payload \<noteq> Inr (Some action)"
    using read_field_not_dict [OF nd, of "''action''"] by auto
  have f: "store_field prints key label assign payload ?s1 = (False, ?s1) \<or>
           store_field prints key label assign payload ?s1 = (True, ?s1)" for key label assign
    using nd by (rule store_field_not_dict)
  have "read_field ''action'' payload = Inl TypeError \<or> read_field ''action'' payload = Inr None"
    using nd by (rule read_field_not_dict)
  then have tail: "(case read_field ''action'' payload of
                 Inl e \<Rightarrow> ?s1 | Inr None \<Rightarrow> ?s1
               | Inr (Some action) \<Rightarrow>
                   if prints ''Knob action'' action then snd (handle_knob_action action ?s1)
                   else ?s1) = ?s1"
    by auto
  show "on_mqtt_message json_loads prints msg_payload s =
          (if prints ''MQTT message'' payload then ?s1 else s)"
    using a f [of "''battery''" "''Battery''" "\<lambda>v c. c\<lparr>knob_battery := v\<rparr>"]
      f [of "''voltage''" "''Voltage''" "\<lambda>v c. c\<lparr>knob_voltage := v\<rparr>"]
      f [of "''linkquality''" "''Signal''" "\<lambda>v c. c\<lparr>knob_linkquality := v\<rparr>"] tail
    by (auto simp add: on_mqtt_message_def Let_def)
qed

theorem undecodable_payload_dropped_witness:
  "on_mqtt_message sample_loads sample_prints ''{'' bound_controller = bound_controller \<and>
   on_mqtt_message sample_loads sample_prints ''5'' bound_controller =
     bound_controller\<lparr>knob_last_seen := Some 1000\<rparr> \<and>
   on_mqtt_message sample_loads sample_prints lone_surrogate_json bound_controller =
     bound_controller"
  using undecodable_payload_dropped
      [of sample_loads "''{''" ValueError sample_prints bound_controller]
    undecodable_payload_dropped
      [of sample_loads "''5''" ValueError sample_prints bound_controller "PInt 5"]
    undecodable_payload_dropped
      [of sample_loads lone_surrogate_json ValueError sample_prints bound_controller
          "PStr lone_surrogate"]
  by (simp add: sample_loads_def sample_prints_def bound_controller_def
      lone_surrogate_json_def lone_surrogate_def)

section \<open>Saving the settings\<close>

text \<open>
  Claim C4, as stated, fails: \<^verbatim>\<open>open(filename, 'w')\<close> truncates the file before
  anything is written, so when \<^verbatim>\<open>json.dump\<close> raises after two characters the save
  returns \<^verbatim>\<open>False\<close> and the file holds those two characters: neither the previous
  content nor the new one.
\<close>

theorem failed_write_loses_file:
  "save_config_dict sample_dumps (DumpRaisesAfter 2) 20 ''tuya_roon_config.json''
     [''tuya_roon_config.json'' \<mapsto> sample_dumps 15] =
     (False, [''tuya_roon_config.json'' \<mapsto> ''{'' @ [CHR 0x0A]]) \<and>
   ''{'' @ [CHR 0x0A] \<noteq> sample_dumps 15 \<and> ''{'' @ [CHR 0x0A] \<noteq> sample_dumps 20"
  by (simp add: save_config_dict_def sample_dumps_def)

text \<open>
  Claim C4, amended. \<^verbatim>\<open>save_config_dict\<close> raises nothing. It returns \<^verbatim>\<open>True\<close> when
  the whole serialisation was written, and the file then holds it. When the open fails
  it returns \<^verbatim>\<open>False\<close> and the file system is as before. When the dump fails after the
  open it returns \<^verbatim>\<open>False\<close> and the file holds the characters written so far, a prefix
  of the new serialisation. No other file is touched.
\<close>

theorem save_config_outcomes:
  "(outcome = WriteOk \<longrightarrow>
      save_config_dict json_dumps outcome config_dict filename fs =
        (True, fs(filename \<mapsto> json_dumps config_dict)))
   \<and> (outcome = OpenRaises \<longrightarrow>
        save_config_dict json_dumps outcome config_dict filename fs = (False, fs))
   \<and> (outcome = DumpRaisesAfter n \<longrightarrow>
        save_config_dict json_dumps outcome config_dict filename fs =
          (False, fs(filename \<mapsto> take n (json_dumps config_dict))))
   \<and> (other \<noteq> filename \<longrightarrow>
        snd (save_config_dict json_dumps outcome config_dict filename fs) other = fs other)"
  by (cases outcome) (simp_all add: save_config_dict_def)

theorem save_config_outcomes_witness:
  "save_config_dict sample_dumps WriteOk 20 ''tuya_roon_config.json''
     [''tuya_roon_config.json'' \<mapsto> sample_dumps 15] =
     (True, [''tuya_roon_config.json'' \<mapsto> sample_dumps 20])
   \<and> save_config_dict sample_dumps OpenRaises 20 ''tuya_roon_config.json''
     [''tuya_roon_config.json'' \<mapsto> sample_dumps 15] =
     (False, [''tuya_roon_config.json'' \<mapsto> sample_dumps 15])
   \<and> snd (save_config_dict sample_dumps (DumpRaisesAfter 0) 20 ''tuya_roon_config.json''
     [''tuya_roon_config.json'' \<mapsto> sample_dumps 15]) ''tuya_roon_config.json'' = Some []
   \<and> snd (save_config_dict sample_dumps (DumpRaisesAfter 0) 20 ''tuya_roon_config.json''
     [''tuya_roon_config.json'' \<mapsto> sample_dumps 15]) ''roon_token'' = None"
  using save_config_outcomes [of WriteOk sample_dumps 20 "''tuya_roon_config.json''"
      "[''tuya_roon_config.json'' \<mapsto> sample_dumps 15]" 0 "''roon_token''"]
    save_config_outcomes [of OpenRaises sample_dumps 20 "''tuya_roon_config.json''"
      "[''tuya_roon_config.json'' \<mapsto> sample_dumps 15]" 0 "''roon_token''"]
    save_config_outcomes [of "DumpRaisesAfter 0" sample_dumps 20 "''tuya_roon_config.json''"
      "[''tuya_roon_config.json'' \<mapsto> sample_dumps 15]" 0 "''roon_token''"]
  by simp

section \<open>A rotation when the volume cannot be read\<close>

text \<open>
  When the read gives \<^verbatim>\<open>None\<close>, \<^verbatim>\<open>change_volume\<close> stops after the read and
  returns \<^verbatim>\<open>False\<close>.
\<close>

lemma failed_read_aborts:
  assumes "fst (get_current_volume s) = PNone"
  shows "change_volume delta s = (Inr False, snd (get_current_volume s))"
  using assms by (cases "get_current_volume s") (simp add: change_volume_def)

lemma inner_get_volume_live:
  assumes "roonapi s" and "truthy (zone_output_id s)"
  shows "inner_get_volume s =
    (Inr (case fst (call (GetVolumePercent (zone_output_id s)) s) of
            Returns volume \<Rightarrow> volume | _ \<Rightarrow> PNone),
     snd (call (GetVolumePercent (zone_output_id s)) s))"
  using assms
  by (cases "call (GetVolumePercent (zone_output_id s)) s")
     (simp add: inner_get_volume_def split: resp.splits)

text \<open>
  Claim C2. A rotate event is dispatched only with a zone bound, and then the
  \<^verbatim>\<open>RoonApi\<close> object exists (\<open>bound_zone_has_roonapi\<close>). In such a state the volume
  read takes one attempt of the wrapper, which cannot run out of attempts since
  \<^verbatim>\<open>_get_volume\<close> raises nothing: it returns what \<^verbatim>\<open>get_volume_percent\<close>
  answered, and \<^verbatim>\<open>None\<close> when that call raised. When the read yields \<^verbatim>\<open>None\<close>,
  \<^verbatim>\<open>change_volume\<close> returns \<^verbatim>\<open>False\<close> and both rotations end with the state the
  read left: the only call issued is the read, no \<^verbatim>\<open>set_volume_percent\<close>, and
  nothing is raised.
\<close>

theorem unread_volume_no_change:
  assumes "roonapi s" and "truthy (zone_output_id s)"
  shows "get_current_volume s =
      (case fst (call (GetVolumePercent (zone_output_id s)) s) of
         Returns volume \<Rightarrow> volume | _ \<Rightarrow> PNone,
       (snd (call (GetVolumePercent (zone_output_id s)) s))
         \<lparr>last_successful_command := now s, roon_connection_healthy := True\<rparr>)
    \<and> (fst (get_current_volume s) = PNone \<longrightarrow>
         change_volume delta s = (Inr False, snd (get_current_volume s)) \<and>
         handle_knob_action (PStr ''rotate_right'') s = (Inr (), snd (get_current_volume s)) \<and>
         handle_knob_action (PStr ''rotate_left'') s = (Inr (), snd (get_current_volume s)) \<and>
         trace (snd (get_current_volume s)) = trace s @ [GetVolumePercent (zone_output_id s)])"
proof (intro conjI impI)
  let ?e = "GetVolumePercent (zone_output_id s)"
  have n: "now (snd (call ?e s)) = now s" by (simp add: snd_call)
  show g: "get_current_volume s =
      (case fst (call ?e s) of Returns volume \<Rightarrow> volume | _ \<Rightarrow> PNone,
       (snd (call ?e s))\<lparr>last_successful_command := now s, roon_connection_healthy := True\<rparr>)"
    unfolding get_current_volume_def
    using robust_live_ok [where command_func = inner_get_volume and s = s
        and s' = "snd (call ?e s)" and max_retries = 3, OF assms(1)]
      inner_get_volume_live [OF assms] n
    by simp
  assume none: "fst (get_current_volume s) = PNone"
  show "trace (snd (get_current_volume s)) = trace s @ [?e]"
    by (simp add: g snd_call)
  show "change_volume delta s = (Inr False, snd (get_current_volume s))"
    using none by (rule failed_read_aborts)
  show "handle_knob_action (PStr ''rotate_right'') s = (Inr (), snd (get_current_volume s))"
    using assms(2) failed_read_aborts [OF none, of "volume_step s"]
    by (simp add: handle_knob_action_def)
  show "handle_knob_action (PStr ''rotate_left'') s = (Inr (), snd (get_current_volume s))"
    using assms(2) failed_read_aborts [OF none, of "- volume_step s"]
    by (simp add: handle_knob_action_def)
qed

theorem unread_volume_no_change_witness:
  "roonapi bound_controller \<and> truthy (zone_output_id bound_controller) \<and>
   fst (get_current_volume bound_controller) = PNone \<and>
   handle_knob_action (PStr ''rotate_right'') bound_controller =
     (Inr (), bound_controller\<lparr>trace := [GetVolumePercent (PStr ''zone-1'')],
                               last_successful_command := 1000\<rparr>) \<and>
   fst (get_current_volume (bound_controller\<lparr>responses := [Returns PNone]\<rparr>)) = PNone \<and>
   trace (snd (handle_knob_action (PStr ''rotate_left'')
     (bound_controller\<lparr>responses := [Returns PNone]\<rparr>))) = [GetVolumePercent (PStr ''zone-1'')]"
proof -
  have live: "roonapi bound_controller" and zone: "truthy (zone_output_id bound_controller)"
    by (simp_all add: bound_controller_def)
  have live': "roonapi (bound_controller\<lparr>responses := [Returns PNone]\<rparr>)"
    and zone': "truthy (zone_output_id (bound_controller\<lparr>responses := [Returns PNone]\<rparr>))"
    by (simp_all add: bound_controller_def)
  show ?thesis
    using unread_volume_no_change [OF live zone, of 5]
      unread_volume_no_change [OF live' zone', of 5] live zone
    by (simp add: bound_controller_def call_def)
qed

section \<open>Clamped volume\<close>

text \<open>
  Claim C1. Every \<^verbatim>\<open>set_volume_percent\<close> call carries a value from 0 to 100:
  \<^verbatim>\<open>set_volume\<close> with any requested value, \<^verbatim>\<open>change_volume\<close> with any delta and
  \<^verbatim>\<open>handle_knob_action\<close> with any action keep a trace in range, whatever the services
  answer. In particular, with a zone bound and the volume read answering \<open>c\<close> (a
  percentage, from 0 to 100) and a positive step, a rotate-right issues the read and
  then \<^verbatim>\<open>set_volume_percent\<close> with \<open>min 100 (c + step)\<close>, a rotate-left with
  \<open>max 0 (c - step)\<close>; at \<open>c = 98\<close> and step 5 the value is 100, not 103.
\<close>

theorem volume_always_clamped:
  "(volumes_in_range (trace s) \<longrightarrow>
      volumes_in_range (trace (snd (set_volume v s))) \<and>
      volumes_in_range (trace (snd (change_volume delta s))) \<and>
      volumes_in_range (trace (snd (handle_knob_action action s))))
   \<and> (roonapi s \<and> truthy (zone_output_id s) \<and> responses s = Returns (PInt c) # rs \<and>
       0 \<le> c \<and> c \<le> 100 \<and> 0 < volume_step s \<longrightarrow>
        trace (snd (handle_knob_action (PStr ''rotate_right'') s)) =
          trace s @ [GetVolumePercent (zone_output_id s),
                     SetVolumePercent (zone_output_id s) (min 100 (c + volume_step s))] \<and>
        trace (snd (handle_knob_action (PStr ''rotate_left'') s)) =
          trace s @ [GetVolumePercent (zone_output_id s),
                     SetVolumePercent (zone_output_id s) (max 0 (c - volume_step s))])"
proof (intro conjI impI)
  assume "volumes_in_range (trace s)"
  then show "volumes_in_range (trace (snd (set_volume v s)))"
    and "volumes_in_range (trace (snd (change_volume delta s)))"
    and "volumes_in_range (trace (snd (handle_knob_action action s)))"
    using kept_range kept_set_volume kept_change_volume kept_handle_knob_action by blast+
next
  assume a: "roonapi s \<and> truthy (zone_output_id s) \<and> responses s = Returns (PInt c) # rs \<and>
       0 \<le> c \<and> c \<le> 100 \<and> 0 < volume_step s"
  then have live: "roonapi s" and zone: "truthy (zone_output_id s)"
    and r: "responses s = Returns (PInt c) # rs" by simp_all
  have up: "max 0 (min 100 (c + volume_step s)) = min 100 (c + volume_step s)"
    using a by simp
  have down: "max 0 (min 100 (c + - volume_step s)) = max 0 (c - volume_step s)"
    using a by simp
  show "trace (snd (handle_knob_action (PStr ''rotate_right'') s)) =
          trace s @ [GetVolumePercent (zone_output_id s),
                     SetVolumePercent (zone_output_id s) (min 100 (c + volume_step s))]"
    using change_volume_live [OF live zone r, of "volume_step s"] zone up
    by (simp add: snd_handle_knob_action)
  show "trace (snd (handle_knob_action (PStr ''rotate_left'') s)) =
          trace s @ [GetVolumePercent (zone_output_id s),
                     SetVolumePercent (zone_output_id s) (max 0 (c - volume_step s))]"
    using change_volume_live [OF live zone r, of "- volume_step s"] zone down
    by (simp add: snd_handle_knob_action)
qed

theorem volume_always_clamped_witness:
  "trace (snd (handle_knob_action (PStr ''rotate_right'')
      (bound_controller\<lparr>responses := [Returns (PInt 98), Returns PNone]\<rparr>))) =
     [GetVolumePercent (PStr ''zone-1''), SetVolumePercent (PStr ''zone-1'') 100]
   \<and> trace (snd (handle_knob_action (PStr ''rotate_left'')
      (bound_controller\<lparr>responses := [Returns (PInt 98), Returns PNone]\<rparr>))) =
     [GetVolumePercent (PStr ''zone-1''), SetVolumePercent (PStr ''zone-1'') 93]
   \<and> volumes_in_range (trace (snd (set_volume 250
      (bound_controller\<lparr>responses := [Returns (PInt 98), Returns PNone]\<rparr>))))"
  using volume_always_clamped [of "bound_controller\<lparr>responses := [Returns (PInt 98), Returns PNone]\<rparr>"
      250 0 PNone 98 "[Returns PNone]"]
  by (simp add: bound_controller_def volumes_in_range_def)

section \<open>The dispatcher without a zone\<close>

text \<open>
  Claim C6. Whatever the knob event (rotate, single, double, hold or an unknown tag),
  when \<^verbatim>\<open>zone_output_id\<close> is unset (\<^verbatim>\<open>None\<close>, or any falsy value)
  \<^verbatim>\<open>handle_knob_action\<close> returns at once: it raises nothing and the whole controller,
  the trace of service calls included, is as before.
\<close>

theorem no_zone_no_action:
  "\<not> truthy (zone_output_id s) \<Longrightarrow> handle_knob_action action s = (Inr (), s)"
  by (simp add: handle_knob_action_def)

theorem no_zone_no_action_witness:
  "\<not> truthy (zone_output_id (bound_controller\<lparr>zone_output_id := PNone\<rparr>)) \<and>
   handle_knob_action (PStr ''rotate_right'') (bound_controller\<lparr>zone_output_id := PNone\<rparr>) =
     (Inr (), bound_controller\<lparr>zone_output_id := PNone\<rparr>)"
  using no_zone_no_action [of "bound_controller\<lparr>zone_output_id := PNone\<rparr>" "PStr ''rotate_right''"]
  by simp

section \<open>Binding a zone needs the API object\<close>

lemma inner_find_zone_truthy:
  assumes "inner_find_zone zone_id zone_name s = (Inr result, s')" and "truthy result"
  shows "roonapi s'"
proof -
  obtain r s1 where c: "call ReadOutputs s = (r, s1)" by (cases "call ReadOutputs s")
  have live: "roonapi s"
    using assms by (auto simp add: inner_find_zone_def split: if_splits)
  have "roonapi (snd (call ReadOutputs s))"
    using live by (simp add: snd_call)
  then have "roonapi s1" using c by simp
  then show ?thesis
    using assms live c by (auto simp add: inner_find_zone_def split: resp.splits)
qed

text \<open>A truthy result of the wrapper came from a run of the command.\<close>

lemma attempts_truthy:
  assumes f: "\<And>s result s'. command_func s = (Inr result, s') \<Longrightarrow> truthy result \<Longrightarrow> roonapi s'"
  shows "truthy (fst (attempts command_func max_retries xs s)) \<Longrightarrow>
         roonapi (snd (attempts command_func max_retries xs s))"
proof (induction xs arbitrary: s)
  case Nil
  then show ?case by simp
next
  case (Cons attempt rest)
  obtain ok s1 where e: "ensure_roonapi s = (ok, s1)" by (cases "ensure_roonapi s")
  obtain r s2 where c: "command_func s1 = (r, s2)" by (cases "command_func s1")
  show ?case
  proof (cases ok)
    case False
    then show ?thesis
      using Cons.prems Cons.IH [of "sleep 3 s1"] e by (simp split: if_splits)
  next
    case True
    show ?thesis
    proof (cases r)
      case (Inr result)
      then show ?thesis
        using Cons.prems e c True f [of s1 result s2] by simp
    next
      case (Inl err)
      then show ?thesis
        using Cons.prems e c True
          Cons.IH [of "snd (setup_roon (sleep 2 s2))"]
          Cons.IH [of "s2\<lparr>roon_connection_healthy := False\<rparr>"]
        by (simp split: if_splits)
    qed
  qed
qed

lemma find_attempts_truthy:
  "truthy (fst (find_attempts zone_id zone_name retries wait_time xs s)) \<Longrightarrow>
   roonapi (snd (find_attempts zone_id zone_name retries wait_time xs s))"
proof (induction xs arbitrary: s)
  case Nil
  then show ?case by simp
next
  case (Cons attempt rest)
  obtain result s1 where r: "robust_roon_command (inner_find_zone zone_id zone_name) 3 s = (result, s1)"
    by (cases "robust_roon_command (inner_find_zone zone_id zone_name) 3 s")
  have t: "truthy result \<Longrightarrow> roonapi s1"
    using attempts_truthy [of "inner_find_zone zone_id zone_name" 3 "[0..<3]" s]
      inner_find_zone_truthy r
    by (simp add: robust_roon_command_def)
  show ?case
    using Cons.prems Cons.IH [of "sleep wait_time s1"] r t by (simp split: if_splits)
qed

text \<open>
  A zone is bound (lines 1049 and 1102) only to a truthy result of
  \<^verbatim>\<open>find_zone_output_id\<close>, and then the \<^verbatim>\<open>RoonApi\<close> object exists.
\<close>

lemma bound_zone_has_roonapi:
  "truthy (fst (find_zone_output_id zone_id zone_name retries wait_time s)) \<Longrightarrow>
   roonapi (snd (find_zone_output_id zone_id zone_name retries wait_time s))"
  by (simp add: find_zone_output_id_def find_attempts_truthy)

section \<open>Double press and hold\<close>

text \<open>
  Claim C9. With a zone bound (and the \<^verbatim>\<open>RoonApi\<close> object that binding a zone
  needs, see \<open>bound_zone_has_roonapi\<close>), a double press issues exactly one call, \<^verbatim>\<open>set_volume_percent(zone, 50)\<close>,
  and a hold exactly one call, \<^verbatim>\<open>set_volume_percent(zone, 0)\<close>: the trace grows by
  that single event, so the volume is not read first, whatever the service would have
  answered.
\<close>

theorem double_and_hold_set_once:
  assumes "roonapi s" and "truthy (zone_output_id s)"
  shows "trace (snd (handle_knob_action (PStr ''double'') s)) =
           trace s @ [SetVolumePercent (zone_output_id s) 50]
       \<and> trace (snd (handle_knob_action (PStr ''hold'') s)) =
           trace s @ [SetVolumePercent (zone_output_id s) 0]"
  using assms set_volume_live [OF assms, of 50] set_volume_live [OF assms, of 0]
  by (simp add: handle_knob_action_def)

theorem double_and_hold_set_once_witness:
  "roonapi bound_controller \<and> truthy (zone_output_id bound_controller) \<and>
   trace (snd (handle_knob_action (PStr ''double'') bound_controller)) =
     [SetVolumePercent (PStr ''zone-1'') 50] \<and>
   trace (snd (handle_knob_action (PStr ''hold'') bound_controller)) =
     [SetVolumePercent (PStr ''zone-1'') 0]"
proof -
  have live: "roonapi bound_controller" and zone: "truthy (zone_output_id bound_controller)"
    by (simp_all add: bound_controller_def)
  show ?thesis
    using double_and_hold_set_once [OF live zone] live zone
    by (simp add: bound_controller_def)
qed

section \<open>The disconnect callback\<close>

text \<open>
  Claim C7. \<^verbatim>\<open>on_mqtt_disconnect\<close> with a nonzero reason code marks the transport
  disconnected, sleeps 2 seconds and then calls \<^verbatim>\<open>client.reconnect()\<close> once: the
  trace grows by exactly these two events and the clock by 2. With reason code 0 it
  only marks the transport disconnected: no sleep, no reconnect.
\<close>

theorem disconnect_reconnects_once:
  "(reason_code \<noteq> 0 \<longrightarrow>
      \<not> mqtt_connected (on_mqtt_disconnect reason_code s) \<and>
      trace (on_mqtt_disconnect reason_code s) = trace s @ [Sleep 2, MqttReconnect] \<and>
      now (on_mqtt_disconnect reason_code s) = now s + 2)
   \<and> (reason_code = 0 \<longrightarrow> on_mqtt_disconnect reason_code s = s\<lparr>mqtt_connected := False\<rparr>)"
  by (simp add: on_mqtt_disconnect_def snd_call sleep_def)

theorem disconnect_reconnects_once_witness:
  "trace (on_mqtt_disconnect 7 bound_controller) = [Sleep 2, MqttReconnect] \<and>
   \<not> mqtt_connected (on_mqtt_disconnect 7 bound_controller) \<and>
   trace (on_mqtt_disconnect 0 bound_controller) = []"
  using disconnect_reconnects_once [of 7 bound_controller]
        disconnect_reconnects_once [of 0 bound_controller]
  by (simp add: bound_controller_def)

end
